theory Spec2Isabelle
  imports Main
begin

section \<open>Snake Hunt: the game engine of \<^verbatim>\<open>SnakeGame.tsx\<close>\<close>

text \<open>
  The component keeps its simulation state in React state cells (\<^verbatim>\<open>snake\<close>,
  \<^verbatim>\<open>food\<close>, \<^verbatim>\<open>direction\<close>, \<^verbatim>\<open>gameOver\<close>, \<^verbatim>\<open>isPaused\<close>,
  \<^verbatim>\<open>score\<close>, \<^verbatim>\<open>speed\<close>, \<^verbatim>\<open>gameStarted\<close>) and in one mutable ref
  (\<^verbatim>\<open>directionRef\<close>). Every handler is modelled as a function from the state of the
  latest render to the state of the next one:
  \<^item> a handler runs to completion before the next one starts, and it sees the state of
    the latest render (the callbacks are re-created whenever a value they read changes);
  \<^item> the updater passed to \<^verbatim>\<open>setSnake\<close> is run once per call, on the snake of the
    latest render;
  \<^item> JavaScript numbers are integers here (coordinates, score and speed only ever take
    small integral values);
  \<^item> a handler runs in an environment that fixes what the JavaScript engine contributes:
    the values that \<^verbatim>\<open>Math.floor(Math.random() * GRID_SIZE)\<close> takes, and the depth the
    call stack may still grow;
  \<^item> \<^verbatim>\<open>toast\<close> appends to a log of notifications;
  \<^item> a handler that throws has no next state: the session is not followed past an
    uncaught exception.
\<close>

subsection \<open>Constants and data\<close>

definition GRID_SIZE :: int where
  "GRID_SIZE = 20"

definition INITIAL_SPEED :: int where
  "INITIAL_SPEED = 150"

definition SPEED_INCREASE :: int where
  "SPEED_INCREASE = 5"

datatype Direction = UP | DOWN | LEFT | RIGHT

record Cell =
  x :: int
  y :: int

text \<open>The toast of \<^verbatim>\<open>moveSnake\<close>: title "Game Over!", description "Your score: n".\<close>

datatype Toast = GameOverToast int

subsection \<open>The environment of a handler\<close>

text \<open>
  \<open>draw env n\<close> is the value of the \<open>n\<close>-th evaluation of
  \<^verbatim>\<open>Math.floor(Math.random() * GRID_SIZE)\<close> made by the handler: the floating-point
  product is not computed here, its floored value is taken as it comes. A well-formed
  environment has \<open>0 \<le> draw env n < GRID_SIZE\<close>. \<open>stack env\<close> is the number of
  nested \<^verbatim>\<open>placeFood\<close> calls the call stack still has room for; it depends on the
  engine.
\<close>

record Env =
  stack :: nat
  draw :: "nat \<Rightarrow> int"

subsection \<open>\<^verbatim>\<open>placeFood\<close>\<close>

text \<open>
  \<^verbatim>\<open>placeFood\<close> draws a cell, and when the cell is on the snake it has captured it
  returns the result of a nested call of itself, which draws from the rest of the random
  sequence. Each retry is one more frame on the call stack: with no room left the call
  raises \<^verbatim>\<open>RangeError\<close> (\<open>None\<close>) and \<^verbatim>\<open>setFood\<close> is not reached. The result
  \<open>Some c\<close> is the cell passed to \<^verbatim>\<open>setFood\<close>.
\<close>

fun placeFood :: "nat \<Rightarrow> (nat \<Rightarrow> int) \<Rightarrow> Cell list \<Rightarrow> Cell option" where
  "placeFood 0 rnd snake = None"
| "placeFood (Suc depth) rnd snake =
     (let newFood = \<lparr> x = rnd 0, y = rnd 1 \<rparr>
      in if list_ex (\<lambda>segment. x segment = x newFood \<and> y segment = y newFood) snake
         then placeFood depth (\<lambda>n. rnd (n + 2)) snake
         else Some newFood)"

subsection \<open>The session\<close>

record Session =
  snake :: "Cell list"
  food :: Cell
  direction :: Direction
  gameOver :: bool
  isPaused :: bool
  score :: int
  speed :: int
  gameStarted :: bool
  directionRef :: Direction
  toasts :: "Toast list"

text \<open>The initial values of the \<^verbatim>\<open>useState\<close> and \<^verbatim>\<open>useRef\<close> calls.\<close>

definition initialSession :: Session where
  "initialSession =
     \<lparr> snake = [\<lparr> x = 8, y = 8 \<rparr>],
       food = \<lparr> x = 5, y = 5 \<rparr>,
       direction = RIGHT,
       gameOver = False,
       isPaused = False,
       score = 0,
       speed = INITIAL_SPEED,
       gameStarted = False,
       directionRef = RIGHT,
       toasts = [] \<rparr>"

subsection \<open>Handlers\<close>

definition togglePause :: "Session \<Rightarrow> Session" where
  "togglePause s = s\<lparr> isPaused := \<not> isPaused s \<rparr>"

text \<open>\<^verbatim>\<open>handleKeyDown\<close>: the argument is \<^verbatim>\<open>e.key\<close>.\<close>

definition handleKeyDown :: "string \<Rightarrow> Session \<Rightarrow> Session" where
  "handleKeyDown key s =
     (let currentDir = directionRef s
      in if key = ''ArrowUp'' then
           (if currentDir \<noteq> DOWN then s\<lparr> direction := UP, directionRef := UP \<rparr> else s)
         else if key = ''ArrowDown'' then
           (if currentDir \<noteq> UP then s\<lparr> direction := DOWN, directionRef := DOWN \<rparr> else s)
         else if key = ''ArrowLeft'' then
           (if currentDir \<noteq> RIGHT then s\<lparr> direction := LEFT, directionRef := LEFT \<rparr> else s)
         else if key = ''ArrowRight'' then
           (if currentDir \<noteq> LEFT then s\<lparr> direction := RIGHT, directionRef := RIGHT \<rparr> else s)
         else if key = '' '' then togglePause s
         else s)"

definition handleDirectionButton :: "Direction \<Rightarrow> Session \<Rightarrow> Session" where
  "handleDirectionButton newDirection s =
     (let currentDir = directionRef s
      in if (newDirection = UP \<and> currentDir \<noteq> DOWN) \<or>
            (newDirection = DOWN \<and> currentDir \<noteq> UP) \<or>
            (newDirection = LEFT \<and> currentDir \<noteq> RIGHT) \<or>
            (newDirection = RIGHT \<and> currentDir \<noteq> LEFT)
         then s\<lparr> direction := newDirection, directionRef := newDirection \<rparr>
         else s)"

text \<open>
  \<^verbatim>\<open>startGame\<close> calls the \<^verbatim>\<open>placeFood\<close> of the render it was created in, whose
  \<^verbatim>\<open>snake\<close> is the snake of that render: \<^verbatim>\<open>setSnake([{ x: 8, y: 8 }])\<close> has been
  queued but is not what \<^verbatim>\<open>placeFood\<close> reads. When \<^verbatim>\<open>placeFood\<close> throws, the
  handler stops there.
\<close>

definition startGame :: "Env \<Rightarrow> Session \<Rightarrow> Session option" where
  "startGame env s =
     (case placeFood (stack env) (draw env) (snake s) of
        None \<Rightarrow> None
      | Some newFood \<Rightarrow>
          Some (s\<lparr> snake := [\<lparr> x = 8, y = 8 \<rparr>],
                   directionRef := RIGHT,
                   direction := RIGHT,
                   gameOver := False,
                   score := 0,
                   speed := INITIAL_SPEED,
                   food := newFood,
                   gameStarted := True,
                   isPaused := False \<rparr>))"

text \<open>
  \<^verbatim>\<open>moveSnake\<close>, one tick. On an empty \<^verbatim>\<open>prevSnake\<close> the JavaScript does not throw:
  the spread of \<^verbatim>\<open>undefined\<close> is an empty object, the moved coordinate is \<^verbatim>\<open>NaN\<close>,
  every comparison with it is false, and the \<^verbatim>\<open>pop\<close> removes the head again, so the
  snake stays empty and nothing else changes. In the food branch \<^verbatim>\<open>placeFood\<close> is the
  callback captured by \<^verbatim>\<open>moveSnake\<close>, and the snake it tests is the snake of the latest
  render, not \<^verbatim>\<open>newSnake\<close>.
\<close>

definition moveSnake :: "Env \<Rightarrow> Session \<Rightarrow> Session option" where
  "moveSnake env s =
     (if gameOver s \<or> isPaused s \<or> \<not> gameStarted s then Some s
      else
        let prevSnake = snake s
        in case prevSnake of
             [] \<Rightarrow> Some s
           | first # _ \<Rightarrow>
               let head = (case directionRef s of
                             UP \<Rightarrow> first\<lparr> y := y first - 1 \<rparr>
                           | DOWN \<Rightarrow> first\<lparr> y := y first + 1 \<rparr>
                           | LEFT \<Rightarrow> first\<lparr> x := x first - 1 \<rparr>
                           | RIGHT \<Rightarrow> first\<lparr> x := x first + 1 \<rparr>)
               in if x head < 0 \<or> x head \<ge> GRID_SIZE \<or>
                     y head < 0 \<or> y head \<ge> GRID_SIZE \<or>
                     list_ex (\<lambda>segment. x segment = x head \<and> y segment = y head) prevSnake
                  then Some (s\<lparr> gameOver := True,
                                 toasts := toasts s @ [GameOverToast (score s)] \<rparr>)
                  else
                    let newSnake = head # prevSnake
                    in if x head = x (food s) \<and> y head = y (food s)
                       then (case placeFood (stack env) (draw env) (snake s) of
                               None \<Rightarrow> None
                             | Some newFood \<Rightarrow>
                                 Some (s\<lparr> score := score s + 10,
                                          food := newFood,
                                          speed := max (speed s - SPEED_INCREASE) 50,
                                          snake := newSnake \<rparr>))
                       else Some (s\<lparr> snake := butlast newSnake \<rparr>))"

subsection \<open>Events\<close>

text \<open>
  What can happen to the component: a key press, a click on one of the on-screen
  buttons, and the timer of the game loop. The start button is rendered only in the
  overlay shown while \<^verbatim>\<open>gameOver || !gameStarted\<close>; the on-screen direction and pause
  buttons are always rendered. A handler that throws leaves no next state.
\<close>

datatype Event =
    KeyDown string
  | DirectionButton Direction
  | PauseButton
  | StartButton Env
  | Tick Env

fun fire :: "Event \<Rightarrow> Session \<Rightarrow> Session option" where
  "fire (KeyDown key) s = Some (handleKeyDown key s)"
| "fire (DirectionButton d) s = Some (handleDirectionButton d s)"
| "fire PauseButton s = Some (togglePause s)"
| "fire (StartButton env) s =
     (if gameOver s \<or> \<not> gameStarted s then startGame env s else Some s)"
| "fire (Tick env) s = moveSnake env s"

fun run :: "Event list \<Rightarrow> Session \<Rightarrow> Session option" where
  "run [] s = Some s"
| "run (e # es) s = (case fire e s of None \<Rightarrow> None | Some s' \<Rightarrow> run es s')"

subsection \<open>Vocabulary of the specification\<close>

text \<open>A session is running when it is started, not paused and not over.\<close>

definition running :: "Session \<Rightarrow> bool" where
  "running s \<longleftrightarrow> gameStarted s \<and> \<not> isPaused s \<and> \<not> gameOver s"

text \<open>A cell is within the grid when both coordinates lie in \<open>[0, GRID_SIZE)\<close>.\<close>

definition inGrid :: "Cell \<Rightarrow> bool" where
  "inGrid c \<longleftrightarrow> 0 \<le> x c \<and> x c < GRID_SIZE \<and> 0 \<le> y c \<and> y c < GRID_SIZE"

text \<open>The unit vector of a direction, in screen coordinates (\<open>y\<close> grows downwards).\<close>

fun unitVector :: "Direction \<Rightarrow> int \<times> int" where
  "unitVector UP = (0, -1)"
| "unitVector DOWN = (0, 1)"
| "unitVector LEFT = (-1, 0)"
| "unitVector RIGHT = (1, 0)"

definition newHead :: "Direction \<Rightarrow> Cell \<Rightarrow> Cell" where
  "newHead d c = \<lparr> x = x c + fst (unitVector d), y = y c + snd (unitVector d) \<rparr>"

text \<open>The exact opposite of a direction.\<close>

fun opposite :: "Direction \<Rightarrow> Direction" where
  "opposite UP = DOWN"
| "opposite DOWN = UP"
| "opposite LEFT = RIGHT"
| "opposite RIGHT = LEFT"

text \<open>The cell drawn by the \<open>k\<close>-th attempt of a \<^verbatim>\<open>placeFood\<close> call (attempts count from 0).\<close>

definition sample :: "(nat \<Rightarrow> int) \<Rightarrow> nat \<Rightarrow> Cell" where
  "sample rnd k = \<lparr> x = rnd (2 * k), y = rnd (2 * k + 1) \<rparr>"

text \<open>The key that requests a direction.\<close>

fun keyOf :: "Direction \<Rightarrow> string" where
  "keyOf UP = ''ArrowUp''"
| "keyOf DOWN = ''ArrowDown''"
| "keyOf LEFT = ''ArrowLeft''"
| "keyOf RIGHT = ''ArrowRight''"

text \<open>The snake has a head and every segment is within the grid.\<close>

definition snakeOnGrid :: "Session \<Rightarrow> bool" where
  "snakeOnGrid s \<longleftrightarrow> snake s \<noteq> [] \<and> list_all inGrid (snake s)"

text \<open>
  The direction of the current movement, followed along a run: the direction that a tick
  of a running session applies, \<^verbatim>\<open>RIGHT\<close> after a start, and otherwise what it was
  before the event.
\<close>

fun movementAfter :: "Event \<Rightarrow> Session \<Rightarrow> Direction \<Rightarrow> Direction" where
  "movementAfter (Tick env) s m =
     (if gameOver s \<or> isPaused s \<or> \<not> gameStarted s then m else directionRef s)"
| "movementAfter (StartButton env) s m =
     (if gameOver s \<or> \<not> gameStarted s then RIGHT else m)"
| "movementAfter (KeyDown key) s m = m"
| "movementAfter (DirectionButton d) s m = m"
| "movementAfter PauseButton s m = m"

fun runMoving :: "Event list \<Rightarrow> Session \<Rightarrow> Direction \<Rightarrow> (Session \<times> Direction) option" where
  "runMoving [] s m = Some (s, m)"
| "runMoving (e # es) s m =
     (case fire e s of None \<Rightarrow> None | Some s' \<Rightarrow> runMoving es s' (movementAfter e s m))"

subsection \<open>Scenarios\<close>

text \<open>A running session with the one-cell snake at (8,8) heading right, food at (5,5).\<close>

definition justStarted :: Session where
  "justStarted = initialSession\<lparr> gameStarted := True \<rparr>"

text \<open>The same, with the food one cell ahead of the head.\<close>

definition foodAhead :: Session where
  "foodAhead = initialSession\<lparr> gameStarted := True, food := \<lparr> x = 9, y = 8 \<rparr> \<rparr>"

text \<open>A running session with the one-cell snake on the left edge, heading left.\<close>

definition atLeftEdge :: Session where
  "atLeftEdge = initialSession\<lparr> gameStarted := True, snake := [\<lparr> x = 0, y = 8 \<rparr>],
                                direction := LEFT, directionRef := LEFT \<rparr>"

text \<open>A started session that has been paused.\<close>

definition pausedSession :: Session where
  "pausedSession = initialSession\<lparr> gameStarted := True, isPaused := True \<rparr>"

text \<open>
  The session after the first food has been eaten: the snake has moved right from (8,8)
  to (9,8) and grown; the next food is at (5,5).
\<close>

definition afterFirstFood :: Session where
  "afterFirstFood =
     \<lparr> snake = [\<lparr> x = 9, y = 8 \<rparr>, \<lparr> x = 8, y = 8 \<rparr>],
       food = \<lparr> x = 5, y = 5 \<rparr>,
       direction = RIGHT,
       gameOver = False,
       isPaused = False,
       score = 10,
       speed = 145,
       gameStarted = True,
       directionRef = RIGHT,
       toasts = [] \<rparr>"

text \<open>
  Environments with room for 10000 nested calls, in which every attempt draws (9,8),
  (5,5), (8,8).
\<close>

definition draws98 :: Env where
  "draws98 = \<lparr> stack = 10000, draw = (\<lambda>n. if even n then 9 else 8) \<rparr>"

definition draws55 :: Env where
  "draws55 = \<lparr> stack = 10000, draw = (\<lambda>n. 5) \<rparr>"

definition draws88 :: Env where
  "draws88 = \<lparr> stack = 10000, draw = (\<lambda>n. 8) \<rparr>"

text \<open>
  An environment with room for 10000 nested calls whose attempts sweep the grid row by
  row: attempt \<open>k\<close> draws \<open>(k mod 20, k div 20 mod 20)\<close>.
\<close>

definition sweep :: Env where
  "sweep = \<lparr> stack = 10000,
             draw = (\<lambda>n. if even n then int (n div 2 mod 20) else int (n div 2 div 20 mod 20)) \<rparr>"

section \<open>Properties\<close>

subsection \<open>Facts about \<^verbatim>\<open>placeFood\<close>\<close>

lemma some_iff_member:
  "list_ex (\<lambda>segment. x segment = x (c::Cell) \<and> y segment = y c) cells \<longleftrightarrow> c \<in> set cells"
  by (induction cells) auto

lemma sample_shift: "sample (\<lambda>n. rnd (n + 2)) k = sample rnd (Suc k)"
  by (simp add: sample_def add.commute)

lemma placeFood_unfold:
  "placeFood depth rnd cells =
     (if depth = 0 then None
      else if sample rnd 0 \<in> set cells then placeFood (depth - 1) (\<lambda>n. rnd (n + 2)) cells
      else Some (sample rnd 0))"
  by (cases depth) (simp_all add: sample_def Let_def some_iff_member[symmetric])

text \<open>The environments of the scenarios are well-formed.\<close>

lemma draws_well_formed:
  "0 \<le> draw draws98 n \<and> draw draws98 n < GRID_SIZE"
  "0 \<le> draw draws55 n \<and> draw draws55 n < GRID_SIZE"
  "0 \<le> draw draws88 n \<and> draw draws88 n < GRID_SIZE"
  "0 \<le> draw sweep n \<and> draw sweep n < GRID_SIZE"
  by (simp_all add: draws98_def draws55_def draws88_def sweep_def GRID_SIZE_def)

text \<open>The equations that evaluate a concrete run.\<close>

lemmas eval_defs = initialSession_def startGame_def moveSnake_def handleKeyDown_def
  handleDirectionButton_def togglePause_def placeFood_unfold sample_def
  GRID_SIZE_def INITIAL_SPEED_def SPEED_INCREASE_def Let_def
  draws98_def draws55_def draws88_def

text \<open>The scenarios are reached from the initial session.\<close>

lemma scenarios_reachable:
  "run [StartButton draws55] initialSession = Some justStarted"
  "run [StartButton draws98] initialSession = Some foodAhead"
  "run [StartButton draws55, PauseButton] initialSession = Some pausedSession"
  "run [StartButton draws55, KeyDown ''ArrowUp'', KeyDown ''ArrowLeft'',
        Tick draws55, Tick draws55, Tick draws55, Tick draws55,
        Tick draws55, Tick draws55, Tick draws55, Tick draws55] initialSession = Some atLeftEdge"
  by (simp_all add: eval_defs justStarted_def foodAhead_def pausedSession_def atLeftEdge_def)

text \<open>
  The call commits the first drawn cell that is off the snake, when that attempt fits in
  the stack; it throws when every attempt that fits lands on the snake.
\<close>

lemma placeFood_first:
  "k < depth \<Longrightarrow> sample rnd k \<notin> set cells \<Longrightarrow> (\<forall>j<k. sample rnd j \<in> set cells) \<Longrightarrow>
   placeFood depth rnd cells = Some (sample rnd k)"
proof (induction k arbitrary: depth rnd)
  case 0
  then show ?case by (subst placeFood_unfold) simp
next
  case (Suc k)
  from Suc.prems(1) obtain d where d: "depth = Suc d" "k < d"
    by (cases depth) auto
  have hit: "sample rnd 0 \<in> set cells"
    using Suc.prems(3) by blast
  have free: "sample (\<lambda>n. rnd (n + 2)) k \<notin> set cells"
    unfolding sample_shift by (rule Suc.prems(2))
  have before: "\<forall>j<k. sample (\<lambda>n. rnd (n + 2)) j \<in> set cells"
    unfolding sample_shift using Suc.prems(3) by blast
  have "placeFood d (\<lambda>n. rnd (n + 2)) cells = Some (sample (\<lambda>n. rnd (n + 2)) k)"
    using d(2) free before by (rule Suc.IH)
  then have "placeFood d (\<lambda>n. rnd (n + 2)) cells = Some (sample rnd (Suc k))"
    unfolding sample_shift .
  with hit d(1) show ?case by (subst placeFood_unfold) simp
qed

lemma placeFood_throws:
  "(\<forall>k<depth. sample rnd k \<in> set cells) \<Longrightarrow> placeFood depth rnd cells = None"
proof (induction depth arbitrary: rnd)
  case 0
  then show ?case by simp
next
  case (Suc depth)
  have hit: "sample rnd 0 \<in> set cells"
    using Suc.prems by blast
  have "\<forall>k<depth. sample (\<lambda>n. rnd (n + 2)) k \<in> set cells"
    unfolding sample_shift using Suc.prems by auto
  then have "placeFood depth (\<lambda>n. rnd (n + 2)) cells = None"
    by (rule Suc.IH)
  with hit show ?case by (subst placeFood_unfold) simp
qed

lemma placeFood_least:
  assumes "k < depth" and "sample rnd k \<notin> set cells"
  shows "\<exists>m\<le>k. placeFood depth rnd cells = Some (sample rnd m) \<and> sample rnd m \<notin> set cells \<and>
             (\<forall>j<m. sample rnd j \<in> set cells)"
proof -
  define m where "m = (LEAST i. sample rnd i \<notin> set cells)"
  have free: "sample rnd m \<notin> set cells"
    unfolding m_def using assms(2) by (rule LeastI)
  have before: "\<forall>j<m. sample rnd j \<in> set cells"
    unfolding m_def using not_less_Least by blast
  have le: "m \<le> k"
    unfolding m_def using assms(2) by (rule Least_le)
  with assms(1) have "m < depth" by simp
  from placeFood_first[OF this free before] free before le show ?thesis by blast
qed

lemma placeFood_result:
  assumes "placeFood depth rnd cells = Some c"
  shows "\<exists>m<depth. c = sample rnd m \<and> sample rnd m \<notin> set cells \<and>
             (\<forall>j<m. sample rnd j \<in> set cells)"
proof -
  have "\<not> (\<forall>k<depth. sample rnd k \<in> set cells)"
    using placeFood_throws[of depth rnd cells] assms by auto
  then obtain k where "k < depth" "sample rnd k \<notin> set cells" by blast
  from placeFood_least[OF this] obtain m where
    m: "m \<le> k" "placeFood depth rnd cells = Some (sample rnd m)"
       "sample rnd m \<notin> set cells" "\<forall>j<m. sample rnd j \<in> set cells"
    by blast
  from m(2) assms have "c = sample rnd m" by simp
  moreover from m(1) \<open>k < depth\<close> have "m < depth" by simp
  ultimately show ?thesis using m(3,4) by blast
qed

lemma sample_inGrid:
  "(\<forall>n. 0 \<le> rnd n \<and> rnd n < GRID_SIZE) \<Longrightarrow> inGrid (sample rnd k)"
  by (simp add: inGrid_def sample_def)

text \<open>The grid has 400 cells, so a snake on fewer than 400 of them leaves one free.\<close>

lemma grid_cells:
  "{c. inGrid c} = (\<lambda>(a, b). \<lparr> x = a, y = b \<rparr>) ` ({0..<20} \<times> {0..<20})"
proof (intro set_eqI iffI)
  fix c :: Cell
  assume "c \<in> {c. inGrid c}"
  then have "(x c, y c) \<in> {0..<20} \<times> {0..<20}"
    by (simp add: inGrid_def GRID_SIZE_def)
  moreover have "c = (\<lambda>(a, b). \<lparr> x = a, y = b \<rparr>) (x c, y c)"
    by simp
  ultimately show "c \<in> (\<lambda>(a, b). \<lparr> x = a, y = b \<rparr>) ` ({0..<20} \<times> {0..<20})"
    by (rule rev_image_eqI)
next
  fix c :: Cell
  assume "c \<in> (\<lambda>(a, b). \<lparr> x = a, y = b \<rparr>) ` ({0..<20} \<times> {0..<20})"
  then show "c \<in> {c. inGrid c}"
    by (auto simp: inGrid_def GRID_SIZE_def)
qed

lemma grid_card: "finite {c. inGrid c}" "card {c. inGrid c} = 400"
proof -
  have inj: "inj_on (\<lambda>(a, b). \<lparr> x = a, y = b \<rparr>) ({0..<20::int} \<times> {0..<20::int})"
    by (auto simp: inj_on_def)
  show "finite {c. inGrid c}"
    unfolding grid_cells by simp
  show "card {c. inGrid c} = 400"
    unfolding grid_cells by (simp add: card_image[OF inj])
qed

lemma free_cell_exists:
  assumes "card {c \<in> set cells. inGrid c} < 400"
  shows "\<exists>c. inGrid c \<and> c \<notin> set cells"
proof (rule ccontr)
  assume "\<not> (\<exists>c. inGrid c \<and> c \<notin> set cells)"
  then have "{c \<in> set cells. inGrid c} = {c. inGrid c}"
    by auto
  with assms grid_card(2) show False by simp
qed

subsection \<open>Termination of \<^verbatim>\<open>placeFood\<close>\<close>

text \<open>
  C9 (counterexample). The claim says that \<^verbatim>\<open>placeFood\<close> reaches a non-colliding cell
  and commits it for every snake with fewer than 400 cells. With the one-cell snake at
  (8,8) and an environment in which every attempt draws (8,8) (\<open>draws88\<close>), every
  attempt lands on the snake: the nested calls use up the stack and the call throws
  without reaching \<^verbatim>\<open>setFood\<close>.
\<close>

theorem placeFood_never_commits_counterexample:
  "length [\<lparr> x = 8, y = 8 \<rparr>] < 400 \<and> sample (draw draws88) 0 = \<lparr> x = 8, y = 8 \<rparr> \<and>
   placeFood (stack draws88) (draw draws88) [\<lparr> x = 8, y = 8 \<rparr>] = None"
proof -
  have "placeFood (stack draws88) (draw draws88) [\<lparr> x = 8, y = 8 \<rparr>] = None"
    by (rule placeFood_throws) (simp add: sample_def draws88_def)
  then show ?thesis
    by (simp add: sample_def draws88_def)
qed

text \<open>
  C9 (amended). For every snake occupying fewer than all 400 grid cells, \<^verbatim>\<open>placeFood\<close>
  terminates and commits a cell that is inside the grid and on no segment of the snake,
  the first such cell drawn, provided the draws are well-formed and fair: every grid
  cell is drawn by one of the attempts that fit in the call stack.
\<close>

theorem placeFood_commits_free_cell:
  assumes "card {c \<in> set cells. inGrid c} < 400"
    and "\<forall>n. 0 \<le> rnd n \<and> rnd n < GRID_SIZE"
    and "\<forall>c. inGrid c \<longrightarrow> (\<exists>k<depth. sample rnd k = c)"
  shows "\<exists>c k. placeFood depth rnd cells = Some c \<and> inGrid c \<and> c \<notin> set cells \<and>
               k < depth \<and> c = sample rnd k \<and> (\<forall>j<k. sample rnd j \<in> set cells)"
proof -
  from free_cell_exists[OF assms(1)] obtain c0 where c0: "inGrid c0" "c0 \<notin> set cells"
    by blast
  with assms(3) obtain k0 where k0: "k0 < depth" "sample rnd k0 = c0"
    by blast
  with c0(2) have "sample rnd k0 \<notin> set cells" by simp
  from placeFood_least[OF k0(1) this] obtain m where
    m: "m \<le> k0" "placeFood depth rnd cells = Some (sample rnd m)"
       "sample rnd m \<notin> set cells" "\<forall>j<m. sample rnd j \<in> set cells"
    by blast
  have "inGrid (sample rnd m)"
    using assms(2) by (rule sample_inGrid)
  with m k0(1) show ?thesis
    by (intro exI[of _ "sample rnd m"] exI[of _ m]) simp
qed

text \<open>The sweeping environment is fair.\<close>

lemma sweep_fair:
  assumes "inGrid c"
  shows "\<exists>k<stack sweep. sample (draw sweep) k = c"
proof -
  from assms have b: "0 \<le> x c" "x c < 20" "0 \<le> y c" "y c < 20"
    by (simp_all add: inGrid_def GRID_SIZE_def)
  define k where "k = nat (x c) + 20 * nat (y c)"
  from b have "k < 400" unfolding k_def by linarith
  then have "k < stack sweep" by (simp add: sweep_def)
  moreover have "int (k mod 20) = x c" "int (k div 20 mod 20) = y c"
    using b unfolding k_def by simp_all
  then have "sample (draw sweep) k = c"
    by (simp add: sample_def sweep_def)
  ultimately show ?thesis by blast
qed

theorem placeFood_commits_free_cell_witness:
  "placeFood (stack sweep) (draw sweep) [\<lparr> x = 0, y = 0 \<rparr>] = Some \<lparr> x = 1, y = 0 \<rparr> \<and>
   inGrid \<lparr> x = 1, y = 0 \<rparr>"
proof -
  let ?cells = "[\<lparr> x = 0, y = 0 \<rparr>]"
  have "card {c \<in> set ?cells. inGrid c} \<le> card (set ?cells)"
    by (intro card_mono) auto
  then have few: "card {c \<in> set ?cells. inGrid c} < 400"
    by simp
  have wf: "\<forall>n. 0 \<le> draw sweep n \<and> draw sweep n < GRID_SIZE"
    using draws_well_formed(4) by blast
  have fair: "\<forall>c. inGrid c \<longrightarrow> (\<exists>k<stack sweep. sample (draw sweep) k = c)"
    using sweep_fair by blast
  have s0: "sample (draw sweep) 0 \<in> set ?cells"
    by (simp add: sample_def sweep_def)
  have s1: "sample (draw sweep) 1 = \<lparr> x = 1, y = 0 \<rparr>"
    by (simp add: sample_def sweep_def)
  from placeFood_commits_free_cell[OF few wf fair] obtain c k where
    ck: "placeFood (stack sweep) (draw sweep) ?cells = Some c" "inGrid c" "c \<notin> set ?cells"
        "c = sample (draw sweep) k" "\<forall>j<k. sample (draw sweep) j \<in> set ?cells"
    by blast
  have "k \<noteq> 0"
  proof
    assume "k = 0"
    with ck(3,4) s0 show False by simp
  qed
  moreover have "\<not> 1 < k"
  proof
    assume "1 < k"
    with ck(5) have "sample (draw sweep) 1 \<in> set ?cells" by blast
    with s1 show False by simp
  qed
  ultimately have "k = 1" by simp
  with ck(1,2,4) s1 show ?thesis by simp
qed

subsection \<open>One tick\<close>

text \<open>The moved head of \<^verbatim>\<open>moveSnake\<close> is the head plus the unit vector.\<close>

lemma moved_head:
  "(case d of UP \<Rightarrow> h\<lparr> y := y h - 1 \<rparr> | DOWN \<Rightarrow> h\<lparr> y := y h + 1 \<rparr>
            | LEFT \<Rightarrow> h\<lparr> x := x h - 1 \<rparr> | RIGHT \<Rightarrow> h\<lparr> x := x h + 1 \<rparr>) = newHead d (h::Cell)"
  by (cases d) (simp_all add: newHead_def)

lemma moveSnake_running:
  assumes "running s" and "snake s = h # t"
  shows "moveSnake rnd s =
     (let head = newHead (directionRef s) h
      in if \<not> inGrid head \<or> head \<in> set (snake s)
         then Some (s\<lparr> gameOver := True, toasts := toasts s @ [GameOverToast (score s)] \<rparr>)
         else if head = food s
         then (case placeFood (stack rnd) (draw rnd) (snake s) of
                 None \<Rightarrow> None
               | Some newFood \<Rightarrow>
                   Some (s\<lparr> score := score s + 10, food := newFood,
                            speed := max (speed s - SPEED_INCREASE) 50,
                            snake := head # snake s \<rparr>))
         else Some (s\<lparr> snake := butlast (head # snake s) \<rparr>))"
proof -
  let ?hd = "newHead (directionRef s) h"
  have guard: "(gameOver s \<or> isPaused s \<or> \<not> gameStarted s) = False"
    using assms(1) by (simp add: running_def)
  have terminal:
    "(x ?hd < 0 \<or> x ?hd \<ge> GRID_SIZE \<or> y ?hd < 0 \<or> y ?hd \<ge> GRID_SIZE \<or>
      list_ex (\<lambda>segment. x segment = x ?hd \<and> y segment = y ?hd) (h # t)) =
     (\<not> inGrid ?hd \<or> ?hd \<in> set (h # t))"
    unfolding some_iff_member by (auto simp: inGrid_def)
  have eats: "(x ?hd = x (food s) \<and> y ?hd = y (food s)) = (?hd = food s)"
    by auto
  show ?thesis
    unfolding moveSnake_def
    by (simp only: guard if_False Let_def assms(2) list.case moved_head terminal eats)
qed

text \<open>
  C1. In a running session, when the new head (the head plus the unit vector of
  \<^verbatim>\<open>directionRef.current\<close>) is outside the grid or on a segment of the snake before
  the tick, the tick sets \<^verbatim>\<open>gameOver\<close>, leaves the snake as it was and emits one
  game-over toast with the current score.
\<close>

theorem moveSnake_collision_ends_game:
  assumes "running s" and "snake s = h # t"
    and "\<not> inGrid (newHead (directionRef s) h) \<or> newHead (directionRef s) h \<in> set (snake s)"
  shows "\<exists>s'. moveSnake rnd s = Some s' \<and> gameOver s' \<and> snake s' = snake s \<and>
              toasts s' = toasts s @ [GameOverToast (score s)]"
  using assms(3) by (simp add: moveSnake_running[OF assms(1,2)] Let_def)

theorem moveSnake_collision_ends_game_witness:
  "running atLeftEdge \<and> snake atLeftEdge = [\<lparr> x = 0, y = 8 \<rparr>] \<and>
   newHead (directionRef atLeftEdge) \<lparr> x = 0, y = 8 \<rparr> = \<lparr> x = -1, y = 8 \<rparr> \<and>
   \<not> inGrid \<lparr> x = -1, y = 8 \<rparr> \<and>
   (\<exists>s'. moveSnake draws55 atLeftEdge = Some s' \<and> gameOver s' \<and>
         snake s' = [\<lparr> x = 0, y = 8 \<rparr>] \<and> toasts s' = [GameOverToast 0])"
proof -
  have r: "running atLeftEdge"
    by (simp add: running_def atLeftEdge_def initialSession_def)
  have sn: "snake atLeftEdge = \<lparr> x = 0, y = 8 \<rparr> # []"
    by (simp add: atLeftEdge_def)
  have nh: "newHead (directionRef atLeftEdge) \<lparr> x = 0, y = 8 \<rparr> = \<lparr> x = -1, y = 8 \<rparr>"
    by (simp add: atLeftEdge_def newHead_def)
  have out: "\<not> inGrid \<lparr> x = -1, y = 8 \<rparr>"
    by (simp add: inGrid_def)
  have "\<not> inGrid (newHead (directionRef atLeftEdge) \<lparr> x = 0, y = 8 \<rparr>) \<or>
        newHead (directionRef atLeftEdge) \<lparr> x = 0, y = 8 \<rparr> \<in> set (snake atLeftEdge)"
    using nh out by simp
  from moveSnake_collision_ends_game[OF r sn this, of draws55] r sn nh out show ?thesis
    by (simp add: atLeftEdge_def initialSession_def)
qed




text \<open>
  C3. In a running session, when the new head is inside the grid, on no segment of the
  snake before the tick, and not on the food cell, the new snake is the new head in
  front of the old snake without its last segment; length, score, speed and food are
  unchanged. The one-cell snake at (8,8) heading right becomes the one-cell snake at
  (9,8).
\<close>

theorem moveSnake_translates:
  assumes "running s" and "snake s = h # t"
    and "inGrid (newHead (directionRef s) h)"
    and "newHead (directionRef s) h \<notin> set (snake s)"
    and "newHead (directionRef s) h \<noteq> food s"
  shows "\<exists>s'. moveSnake rnd s = Some s' \<and>
              snake s' = newHead (directionRef s) h # butlast (snake s) \<and>
              length (snake s') = length (snake s) \<and>
              score s' = score s \<and> speed s' = speed s \<and> food s' = food s"
  using assms(2,3,4,5) by (simp add: moveSnake_running[OF assms(1,2)] Let_def)

theorem moveSnake_translates_witness:
  "running justStarted \<and> snake justStarted = [\<lparr> x = 8, y = 8 \<rparr>] \<and>
   directionRef justStarted = RIGHT \<and>
   newHead RIGHT \<lparr> x = 8, y = 8 \<rparr> = \<lparr> x = 9, y = 8 \<rparr> \<and>
   inGrid \<lparr> x = 9, y = 8 \<rparr> \<and> \<lparr> x = 9, y = 8 \<rparr> \<notin> set (snake justStarted) \<and>
   \<lparr> x = 9, y = 8 \<rparr> \<noteq> food justStarted \<and>
   (\<exists>s'. moveSnake draws55 justStarted = Some s' \<and> snake s' = [\<lparr> x = 9, y = 8 \<rparr>] \<and>
         length (snake s') = 1 \<and> score s' = 0 \<and> speed s' = 150 \<and>
         food s' = \<lparr> x = 5, y = 5 \<rparr>)"
proof -
  have r: "running justStarted"
    by (simp add: running_def justStarted_def initialSession_def)
  have sn: "snake justStarted = \<lparr> x = 8, y = 8 \<rparr> # []"
    by (simp add: justStarted_def initialSession_def)
  have dir: "directionRef justStarted = RIGHT"
    by (simp add: justStarted_def initialSession_def)
  have nh: "newHead RIGHT \<lparr> x = 8, y = 8 \<rparr> = \<lparr> x = 9, y = 8 \<rparr>"
    by (simp add: newHead_def)
  have ing: "inGrid (newHead (directionRef justStarted) \<lparr> x = 8, y = 8 \<rparr>)"
    unfolding dir nh by (simp add: inGrid_def GRID_SIZE_def)
  have off: "newHead (directionRef justStarted) \<lparr> x = 8, y = 8 \<rparr> \<notin> set (snake justStarted)"
    unfolding dir nh sn by simp
  have nofood: "newHead (directionRef justStarted) \<lparr> x = 8, y = 8 \<rparr> \<noteq> food justStarted"
    unfolding dir nh by (simp add: justStarted_def initialSession_def)
  from moveSnake_translates[OF r sn ing off nofood, of draws55] r sn dir nh ing off nofood
  show ?thesis
    by (simp add: justStarted_def initialSession_def INITIAL_SPEED_def)
qed

subsection \<open>Starting a game\<close>




subsection \<open>Direction requests\<close>

text \<open>
  C6 (counterexample). The claim says that a direction request made while the session is
  paused, over or not started leaves the whole state unchanged. Neither
  \<^verbatim>\<open>handleKeyDown\<close> nor \<^verbatim>\<open>handleDirectionButton\<close> reads \<^verbatim>\<open>gameStarted\<close>,
  \<^verbatim>\<open>isPaused\<close> or \<^verbatim>\<open>gameOver\<close>: in a paused session, and in one that has not been
  started, a request for \<^verbatim>\<open>UP\<close> sets the pending direction to \<^verbatim>\<open>UP\<close>.
\<close>

theorem direction_request_while_paused_counterexample:
  "gameStarted pausedSession \<and> isPaused pausedSession \<and>
   handleKeyDown ''ArrowUp'' pausedSession \<noteq> pausedSession \<and>
   directionRef (handleKeyDown ''ArrowUp'' pausedSession) = UP \<and>
   handleDirectionButton UP pausedSession \<noteq> pausedSession \<and>
   directionRef (handleDirectionButton UP initialSession) = UP \<and>
   \<not> gameStarted initialSession"
  by (simp add: pausedSession_def initialSession_def handleKeyDown_def handleDirectionButton_def
      Let_def)

text \<open>
  C6 (amended). For every direction request \<open>d\<close>, by arrow key or by on-screen button,
  in every session state reached from the initial one, whether running, paused, over or
  not started: as long as no turn is pending, that is \<^verbatim>\<open>directionRef.current\<close> is still
  the direction of the current movement, a request for the reverse of the current
  movement direction leaves the whole session state unchanged, and a request for any
  other direction sets \<^verbatim>\<open>direction\<close> and \<^verbatim>\<open>directionRef.current\<close> to \<open>d\<close> and
  changes nothing else.
\<close>

theorem direction_request_no_turn_pending:
  assumes "runMoving es initialSession RIGHT = Some (s, m)"
    and "directionRef s = m"
  shows "handleDirectionButton d s =
           (if d = opposite m then s else s\<lparr> direction := d, directionRef := d \<rparr>) \<and>
         handleKeyDown (keyOf d) s = handleDirectionButton d s"
  using assms(2)
  by (cases d; cases m) (simp_all add: handleDirectionButton_def handleKeyDown_def Let_def)

theorem direction_request_no_turn_pending_witness:
  "handleKeyDown ''ArrowUp'' pausedSession = pausedSession\<lparr> direction := UP, directionRef := UP \<rparr> \<and>
   handleDirectionButton LEFT pausedSession = pausedSession"
proof -
  have reached: "runMoving [StartButton draws55, PauseButton] initialSession RIGHT =
      Some (pausedSession, RIGHT)"
    by (simp add: eval_defs pausedSession_def)
  have pending: "directionRef pausedSession = RIGHT"
    by (simp add: pausedSession_def initialSession_def)
  from direction_request_no_turn_pending[OF reached pending, of UP]
    direction_request_no_turn_pending[OF reached pending, of LEFT]
  show ?thesis by simp
qed

text \<open>
  Following the movement does not change the run, and right after a tick of a running
  session no turn is pending.
\<close>

lemma runMoving_run:
  "runMoving es s m = Some (s', m') \<Longrightarrow> run es s = Some s'"
  by (induction es arbitrary: s m) (auto split: option.splits)

lemma moveSnake_directionRef:
  "moveSnake env s = Some s' \<Longrightarrow> directionRef s' = directionRef s"
  by (auto simp: moveSnake_def Let_def split: if_splits list.splits option.splits)

lemma no_turn_pending_after_tick:
  assumes "running s" and "moveSnake env s = Some s'"
  shows "directionRef s' = movementAfter (Tick env) s m"
  using assms moveSnake_directionRef[OF assms(2)] by (simp add: running_def)

text \<open>
  C4 (the code at the failing input). After the first food the snake has just moved
  right, from (8,8) to (9,8), and \<^verbatim>\<open>directionRef.current\<close> is \<^verbatim>\<open>RIGHT\<close>. Two key
  presses before the next tick, \<^verbatim>\<open>ArrowUp\<close> and then \<^verbatim>\<open>ArrowLeft\<close>, are both
  accepted, because the second one is compared with \<^verbatim>\<open>UP\<close>, the direction the first
  one has just stored, not with the direction of the last move. The next tick applies
  \<^verbatim>\<open>LEFT\<close>, the exact opposite of the last move: the new head (8,8) is on the body and
  the game is over. In between, \<^verbatim>\<open>ArrowDown\<close> is refused although it is not the
  opposite of the last move.
\<close>

theorem reversal_after_two_requests:
  "run [StartButton draws98, Tick draws55] initialSession = Some afterFirstFood \<and>
   running afterFirstFood \<and>
   fire (KeyDown ''ArrowUp'') afterFirstFood =
     Some (afterFirstFood\<lparr> direction := UP, directionRef := UP \<rparr>) \<and>
   fire (KeyDown ''ArrowDown'') (afterFirstFood\<lparr> direction := UP, directionRef := UP \<rparr>) =
     Some (afterFirstFood\<lparr> direction := UP, directionRef := UP \<rparr>) \<and>
   fire (KeyDown ''ArrowLeft'') (afterFirstFood\<lparr> direction := UP, directionRef := UP \<rparr>) =
     Some (afterFirstFood\<lparr> direction := LEFT, directionRef := LEFT \<rparr>) \<and>
   fire (Tick draws55) (afterFirstFood\<lparr> direction := LEFT, directionRef := LEFT \<rparr>) =
     Some (afterFirstFood\<lparr> direction := LEFT, directionRef := LEFT, gameOver := True,
                           toasts := [GameOverToast 10] \<rparr>)"
  by (simp add: eval_defs afterFirstFood_def running_def)

subsection \<open>Pausing\<close>

text \<open>
  C7 (counterexample). The claim says that \<^verbatim>\<open>togglePause\<close> leaves the state unchanged
  when the session is not started or is over. \<^verbatim>\<open>togglePause\<close> is
  \<^verbatim>\<open>setIsPaused(prev => !prev)\<close> with no test: in the session that has not been started,
  the call, and the space bar, set \<^verbatim>\<open>isPaused\<close>.
\<close>

theorem togglePause_not_started_counterexample:
  "\<not> gameStarted initialSession \<and> \<not> isPaused initialSession \<and>
   isPaused (togglePause initialSession) \<and> togglePause initialSession \<noteq> initialSession \<and>
   handleKeyDown '' '' initialSession \<noteq> initialSession"
  by (simp add: initialSession_def togglePause_def handleKeyDown_def Let_def)

text \<open>
  C7 (amended). \<^verbatim>\<open>togglePause\<close> flips the paused flag in every session state, started
  or not, over or not, and leaves every other field unchanged; the space bar and the
  on-screen pause button do exactly that.
\<close>

theorem togglePause_flips_in_every_state:
  "isPaused (togglePause s) = (\<not> isPaused s) \<and>
   snake (togglePause s) = snake s \<and> food (togglePause s) = food s \<and>
   direction (togglePause s) = direction s \<and> directionRef (togglePause s) = directionRef s \<and>
   gameOver (togglePause s) = gameOver s \<and> gameStarted (togglePause s) = gameStarted s \<and>
   score (togglePause s) = score s \<and> speed (togglePause s) = speed s \<and>
   toasts (togglePause s) = toasts s \<and>
   handleKeyDown '' '' s = togglePause s \<and> fire PauseButton s = Some (togglePause s)"
  by (simp add: togglePause_def handleKeyDown_def Let_def)


subsection \<open>The snake stays on the grid\<close>

lemma snake_handleKeyDown: "snake (handleKeyDown key s) = snake s"
  by (simp add: handleKeyDown_def togglePause_def Let_def)

lemma snake_handleDirectionButton: "snake (handleDirectionButton d s) = snake s"
  by (simp add: handleDirectionButton_def Let_def)

lemma snake_togglePause: "snake (togglePause s) = snake s"
  by (simp add: togglePause_def)

lemma startGame_snakeOnGrid: "startGame rnd s = Some s' \<Longrightarrow> snakeOnGrid s'"
  by (auto simp: startGame_def snakeOnGrid_def inGrid_def GRID_SIZE_def split: option.splits)

lemma moveSnake_snakeOnGrid:
  assumes "snakeOnGrid s" and "moveSnake rnd s = Some s'"
  shows "snakeOnGrid s'"
proof (cases "running s")
  case False
  then have "moveSnake rnd s = Some s"
    by (auto simp: moveSnake_def running_def)
  with assms show ?thesis by simp
next
  case True
  from assms(1) obtain h t where sn: "snake s = h # t"
    by (cases "snake s") (auto simp: snakeOnGrid_def)
  let ?hd = "newHead (directionRef s) h"
  consider (over) "\<not> inGrid ?hd \<or> ?hd \<in> set (snake s)"
    | (eat) "inGrid ?hd" "?hd \<notin> set (snake s)" "?hd = food s"
    | (move) "inGrid ?hd" "?hd \<notin> set (snake s)" "?hd \<noteq> food s"
    by blast
  then show ?thesis
  proof cases
    case over
    with assms show ?thesis
      by (auto simp: moveSnake_running[OF True sn] Let_def snakeOnGrid_def)
  next
    case eat
    with assms show ?thesis
      by (auto simp: moveSnake_running[OF True sn] Let_def snakeOnGrid_def split: option.splits)
  next
    case move
    have "set (butlast (snake s)) \<subseteq> set (snake s)"
      by (auto dest: in_set_butlastD)
    with assms(1) have "list_all inGrid (butlast (snake s))"
      by (auto simp: snakeOnGrid_def list_all_iff)
    with move assms sn show ?thesis
      by (auto simp: moveSnake_running[OF True sn] Let_def snakeOnGrid_def)
  qed
qed

lemma fire_snakeOnGrid:
  assumes "snakeOnGrid s" and "fire e s = Some s'"
  shows "snakeOnGrid s'"
proof (cases e)
  case (KeyDown key)
  with assms show ?thesis by (auto simp: snakeOnGrid_def snake_handleKeyDown)
next
  case (DirectionButton d)
  with assms show ?thesis by (auto simp: snakeOnGrid_def snake_handleDirectionButton)
next
  case PauseButton
  with assms show ?thesis by (auto simp: snakeOnGrid_def snake_togglePause)
next
  case (StartButton rnd)
  with assms show ?thesis by (auto dest: startGame_snakeOnGrid split: if_splits)
next
  case (Tick rnd)
  with assms show ?thesis by (auto dest: moveSnake_snakeOnGrid)
qed

lemma run_snakeOnGrid:
  "snakeOnGrid s \<Longrightarrow> run es s = Some s' \<Longrightarrow> snakeOnGrid s'"
proof (induction es arbitrary: s)
  case Nil
  then show ?case by simp
next
  case (Cons e es)
  from Cons.prems(2) obtain s1 where s1: "fire e s = Some s1" "run es s1 = Some s'"
    by (auto split: option.splits)
  from fire_snakeOnGrid[OF Cons.prems(1) s1(1)] have "snakeOnGrid s1" .
  from Cons.IH[OF this s1(2)] show ?case .
qed

text \<open>
  C10. In every session state reached from the initial one by key presses, button
  clicks and ticks, the snake is non-empty (it has a head) and every segment lies within
  the grid.
\<close>

theorem reachable_snake_on_grid:
  assumes "run es initialSession = Some s"
  shows "snake s \<noteq> [] \<and> (\<forall>c \<in> set (snake s). inGrid c) \<and> (\<exists>h t. snake s = h # t)"
proof -
  have "snakeOnGrid initialSession"
    by (simp add: snakeOnGrid_def initialSession_def inGrid_def GRID_SIZE_def)
  from run_snakeOnGrid[OF this assms] show ?thesis
    by (cases "snake s") (auto simp: snakeOnGrid_def list_all_iff)
qed

theorem reachable_snake_on_grid_witness:
  "run [StartButton draws98, Tick draws55, KeyDown ''ArrowUp'', Tick draws55] initialSession =
     Some \<lparr> snake = [\<lparr> x = 9, y = 7 \<rparr>, \<lparr> x = 9, y = 8 \<rparr>], food = \<lparr> x = 5, y = 5 \<rparr>,
            direction = UP, gameOver = False, isPaused = False, score = 10, speed = 145,
            gameStarted = True, directionRef = UP, toasts = [] \<rparr> \<and>
   [\<lparr> x = 9, y = 7 \<rparr>, \<lparr> x = 9, y = 8 \<rparr>] \<noteq> [] \<and>
   inGrid \<lparr> x = 9, y = 7 \<rparr> \<and> inGrid \<lparr> x = 9, y = 8 \<rparr>"
proof -
  have tr: "run [StartButton draws98, Tick draws55, KeyDown ''ArrowUp'', Tick draws55] initialSession =
     Some \<lparr> snake = [\<lparr> x = 9, y = 7 \<rparr>, \<lparr> x = 9, y = 8 \<rparr>], food = \<lparr> x = 5, y = 5 \<rparr>,
            direction = UP, gameOver = False, isPaused = False, score = 10, speed = 145,
            gameStarted = True, directionRef = UP, toasts = [] \<rparr>"
    by (simp add: eval_defs)
  from reachable_snake_on_grid[OF tr] tr show ?thesis by simp
qed

subsection \<open>Where the food lands\<close>

text \<open>
  C5 (the code at the failing input). \<^verbatim>\<open>placeFood\<close> tests the snake of the latest
  render. On a tick that eats the food at (9,8), with the random source drawing (9,8),
  the cell is tested against the snake before the tick, \<open>[(8,8)]\<close>, and committed: the
  food lies under the new head of the grown snake. On a restart after the one-cell
  snake has run from (8,8) up into the wall, with the random source drawing (8,8), the
  cell is tested against the old snake \<open>[(8,0)]\<close> and committed: the food lies under
  the reset snake.
\<close>

theorem food_placed_on_snake:
  "run [StartButton draws98, Tick draws98] initialSession =
     Some \<lparr> snake = [\<lparr> x = 9, y = 8 \<rparr>, \<lparr> x = 8, y = 8 \<rparr>], food = \<lparr> x = 9, y = 8 \<rparr>,
            direction = RIGHT, gameOver = False, isPaused = False, score = 10, speed = 145,
            gameStarted = True, directionRef = RIGHT, toasts = [] \<rparr> \<and>
   run [StartButton draws55, KeyDown ''ArrowUp'',
        Tick draws55, Tick draws55, Tick draws55, Tick draws55,
        Tick draws55, Tick draws55, Tick draws55, Tick draws55] initialSession =
     Some \<lparr> snake = [\<lparr> x = 8, y = 0 \<rparr>], food = \<lparr> x = 5, y = 5 \<rparr>,
            direction = UP, gameOver = False, isPaused = False, score = 0, speed = 150,
            gameStarted = True, directionRef = UP, toasts = [] \<rparr> \<and>
   run [StartButton draws55, KeyDown ''ArrowUp'',
        Tick draws55, Tick draws55, Tick draws55, Tick draws55,
        Tick draws55, Tick draws55, Tick draws55, Tick draws55,
        Tick draws55, StartButton draws88] initialSession =
     Some \<lparr> snake = [\<lparr> x = 8, y = 8 \<rparr>], food = \<lparr> x = 8, y = 8 \<rparr>,
            direction = RIGHT, gameOver = False, isPaused = False, score = 0, speed = 150,
            gameStarted = True, directionRef = RIGHT, toasts = [GameOverToast 0] \<rparr>"
  by (simp add: eval_defs)

end
